theory Spec2Isabelle
  imports
    Main
    "HOL-Library.Char_ord"
    "HOL-Library.List_Lexorder"
    "HOL-Library.Multiset"
    "HOL-Library.Word"
begin

section \<open>Python values, errors and slices\<close>

text \<open>
  The service is one Python module, \<^verbatim>\<open>main.py\<close>. Every \<^verbatim>\<open>raise\<close> of the module, and
  every exception of the Python operations it uses, is a value of \<open>error\<close>; a handler
  returns \<open>error + 'a\<close> with \<open>Inl\<close> for the exception. Python strings are \<open>string\<close>
  (code points below 256), Python integers are \<open>int\<close>.
\<close>

datatype error =
    IndexError
  | KeyError string
  | ValueError string
  | JSONDecodeError
  | ValidationError
  | HTTPException nat string "(string \<times> string) list"

text \<open>The values the handlers put into a row before handing it to the sheet.\<close>

datatype pyval = PNone | PBool bool | PInt int | PStr string

text \<open>A Python \<^verbatim>\<open>dict\<close> with string keys; \<^verbatim>\<open>d.get(k)\<close> is \<open>d k\<close>.\<close>

type_synonym 'v dict = "string \<rightharpoonup> 'v"

text \<open>\<^verbatim>\<open>xs[i]\<close> for an index that \<^verbatim>\<open>range\<close> produced (never negative).\<close>

definition py_index :: "'a list \<Rightarrow> nat \<Rightarrow> error + 'a" where
  "py_index xs i = (if i < length xs then Inr (xs ! i) else Inl IndexError)"

text \<open>\<^verbatim>\<open>d[k]\<close>, which raises \<^verbatim>\<open>KeyError\<close> on a missing key.\<close>

definition py_getitem :: "'v dict \<Rightarrow> string \<Rightarrow> error + 'v" where
  "py_getitem d k = (case d k of None \<Rightarrow> Inl (KeyError k) | Some v \<Rightarrow> Inr v)"



text \<open>\<^verbatim>\<open>str(n)\<close> for an integer: decimal digits, with a minus sign when negative.\<close>

definition digit_char :: "nat \<Rightarrow> char" where
  "digit_char d = char_of (48 + d)"

function str_nat :: "nat \<Rightarrow> string" where
  "str_nat n = (if n < 10 then [digit_char n] else str_nat (n div 10) @ [digit_char (n mod 10)])"
  by pat_completeness auto
termination
  by (relation "measure (\<lambda>n. n)") auto

declare str_nat.simps [simp del]

definition str_int :: "int \<Rightarrow> string" where
  "str_int i = (if i < 0 then CHR ''-'' # str_nat (nat (- i)) else str_nat (nat i))"

section \<open>The row codec\<close>

text \<open>
  \<^verbatim>\<open>
  def row_to_dict(headers, row):
      return {headers[i]: row[i] for i in range(len(headers))}
  \<close>
  The comprehension runs over the indices in order; each step reads \<^verbatim>\<open>headers[i]\<close> and
  \<^verbatim>\<open>row[i]\<close> and stores the pair, a later key replacing an earlier equal one.
\<close>

fun dict_comprehension :: "string list \<Rightarrow> string list \<Rightarrow> nat list \<Rightarrow> string dict \<Rightarrow> error + string dict" where
  "dict_comprehension headers row [] d = Inr d"
| "dict_comprehension headers row (i # is) d =
     (case py_index headers i of
        Inl e \<Rightarrow> Inl e
      | Inr k \<Rightarrow>
          (case py_index row i of
             Inl e \<Rightarrow> Inl e
           | Inr v \<Rightarrow> dict_comprehension headers row is (d(k \<mapsto> v))))"

definition row_to_dict :: "string list \<Rightarrow> string list \<Rightarrow> error + string dict" where
  "row_to_dict headers row = dict_comprehension headers row [0..<length headers] Map.empty"

section \<open>The sheet store\<close>

text \<open>
  The spreadsheet is an external collaborator, reached through the \<^verbatim>\<open>gspread\<close> client. A
  worksheet is modelled as what the handlers can observe of it: the number of rows of its
  sheet (\<^verbatim>\<open>ws.row_count\<close>) and its used range \<open>grid\<close>, a list of rows of text cells. Coordinates
  are 1-based; a cell outside the stored lists is empty and reads as the empty text. Text
  is stored and returned as it was written.
\<close>

type_synonym row = "string list"

record worksheet =
  row_count :: nat
  grid :: "row list"

text \<open>What \<^verbatim>\<open>add_worksheet(title=sheet_name, rows="100", cols="20")\<close> creates.\<close>

definition new_worksheet :: worksheet where
  "new_worksheet = \<lparr>row_count = 100, grid = []\<rparr>"

text \<open>
  The text a written value shows as: booleans as \<^verbatim>\<open>TRUE\<close>/\<^verbatim>\<open>FALSE\<close>, \<^verbatim>\<open>None\<close> as the
  empty cell, integers in decimal.
\<close>

fun cell_text :: "pyval \<Rightarrow> string" where
  "cell_text PNone = []"
| "cell_text (PBool b) = (if b then ''TRUE'' else ''FALSE'')"
| "cell_text (PInt i) = str_int i"
| "cell_text (PStr s) = s"

definition row_cell :: "row \<Rightarrow> nat \<Rightarrow> string" where
  "row_cell r c = (if 1 \<le> c \<and> c \<le> length r then r ! (c - 1) else [])"

definition cell_value :: "worksheet \<Rightarrow> nat \<Rightarrow> nat \<Rightarrow> string" where
  "cell_value ws r c =
     (if 1 \<le> r \<and> r \<le> length (grid ws) then row_cell (grid ws ! (r - 1)) c else [])"

text \<open>\<^verbatim>\<open>ws.row_values(r)\<close>: the cells of row \<open>r\<close> without its trailing empty cells.\<close>

definition strip_trailing :: "row \<Rightarrow> row" where
  "strip_trailing r = rev (dropWhile (\<lambda>c. c = []) (rev r))"

definition row_values :: "worksheet \<Rightarrow> nat \<Rightarrow> row" where
  "row_values ws r =
     (if 1 \<le> r \<and> r \<le> length (grid ws) then strip_trailing (grid ws ! (r - 1)) else [])"

text \<open>\<^verbatim>\<open>ws.update(values)\<close>: writes the block \<open>values\<close> with its corner at cell A1.\<close>

fun overlay_rows :: "row list \<Rightarrow> row list \<Rightarrow> row list" where
  "overlay_rows [] old = old"
| "overlay_rows (v # vs) [] = v # overlay_rows vs []"
| "overlay_rows (v # vs) (r # rs) = (v @ drop (length v) r) # overlay_rows vs rs"

definition ws_update :: "worksheet \<Rightarrow> pyval list list \<Rightarrow> worksheet" where
  "ws_update ws values =
     (let rs = overlay_rows (map (map cell_text) values) (grid ws)
      in ws\<lparr>grid := rs, row_count := max (row_count ws) (length rs)\<rparr>)"

text \<open>\<^verbatim>\<open>ws.append_rows(values)\<close>: the rows go below the used range.\<close>

definition append_rows :: "worksheet \<Rightarrow> pyval list list \<Rightarrow> worksheet" where
  "append_rows ws values =
     (let rs = grid ws @ map (map cell_text) values
      in ws\<lparr>grid := rs, row_count := max (row_count ws) (length rs)\<rparr>)"

definition append_row :: "worksheet \<Rightarrow> pyval list \<Rightarrow> worksheet" where
  "append_row ws values = append_rows ws [values]"

text \<open>
  \<^verbatim>\<open>ws.find(query, in_column=c)\<close>: the row of the first cell of column \<open>c\<close>, from the
  top, whose text equals \<open>query\<close>; \<^verbatim>\<open>None\<close> when there is none.
\<close>

fun find_from :: "string \<Rightarrow> nat \<Rightarrow> nat \<Rightarrow> row list \<Rightarrow> nat option" where
  "find_from query c r [] = None"
| "find_from query c r (x # xs) =
     (if row_cell x c = query then Some r else find_from query c (Suc r) xs)"

definition ws_find :: "worksheet \<Rightarrow> string \<Rightarrow> nat \<Rightarrow> nat option" where
  "ws_find ws query in_column = find_from query in_column 1 (grid ws)"

text \<open>\<^verbatim>\<open>ws.update_cell(r, c, value)\<close>: one cell is written, the grid growing as needed.\<close>

definition set_cell :: "row \<Rightarrow> nat \<Rightarrow> string \<Rightarrow> row" where
  "set_cell x c v = (x @ replicate (c - length x) [])[c - 1 := v]"

definition update_cell :: "worksheet \<Rightarrow> nat \<Rightarrow> nat \<Rightarrow> pyval \<Rightarrow> worksheet" where
  "update_cell ws r c v =
     (let rs = grid ws @ replicate (r - length (grid ws)) []
      in ws\<lparr>grid := rs[r - 1 := set_cell (rs ! (r - 1)) c (cell_text v)],
              row_count := max (row_count ws) (length rs)\<rparr>)"




section \<open>Identifiers and timestamps\<close>

text \<open>
  A UUID is its 128-bit number; \<^verbatim>\<open>str\<close> of it is the 32 lower-case hexadecimal digits in
  groups of 8-4-4-4-12.
\<close>

type_synonym uuid = "128 word"

definition hex_char :: "nat \<Rightarrow> char" where
  "hex_char d = ''0123456789abcdef'' ! d"

definition uuid_hex :: "uuid \<Rightarrow> string" where
  "uuid_hex u = map (\<lambda>i. hex_char (unat (take_bit 4 (drop_bit (4 * (31 - i)) u)))) [0..<32]"

definition str_uuid :: "uuid \<Rightarrow> string" where
  "str_uuid u =
     (let h = uuid_hex u
      in take 8 h @ ''-'' @ take 4 (drop 8 h) @ ''-'' @ take 4 (drop 12 h) @ ''-'' @
         take 4 (drop 16 h) @ ''-'' @ drop 20 h)"

text \<open>
  \<^verbatim>\<open>datetime.now(tz=UTC)\<close> and \<^verbatim>\<open>str\<close> of it: \<^verbatim>\<open>YYYY-MM-DD HH:MM:SS.ffffff+00:00\<close>, the
  fraction left out when the microsecond is 0.
\<close>

record datetime =
  year :: nat
  month :: nat
  day :: nat
  hour :: nat
  minute :: nat
  second :: nat
  microsecond :: nat

definition zero_pad :: "nat \<Rightarrow> nat \<Rightarrow> string" where
  "zero_pad w n = replicate (w - length (str_nat n)) CHR ''0'' @ str_nat n"

definition str_datetime :: "datetime \<Rightarrow> string" where
  "str_datetime t =
     zero_pad 4 (year t) @ ''-'' @ zero_pad 2 (month t) @ ''-'' @ zero_pad 2 (day t) @ '' '' @
     zero_pad 2 (hour t) @ '':'' @ zero_pad 2 (minute t) @ '':'' @ zero_pad 2 (second t) @
     (if microsecond t = 0 then [] else ''.'' @ zero_pad 6 (microsecond t)) @ ''+00:00''"

section \<open>Gifts\<close>

record gift_request =
  name :: string
  image_url :: string

record gift = gift_request +
  id_str :: string
  available :: bool
  purchased :: "string option"
  updated_at :: datetime

text \<open>
  \<^verbatim>\<open>Gift(name=..., image_url=..., updated_at=...)\<close>: the identifier comes from the default
  factory \<^verbatim>\<open>str(uuid.uuid4())\<close>, here applied to the UUID \<open>fresh\<close> that \<^verbatim>\<open>uuid4\<close> returns for
  this gift; \<open>available\<close> and \<open>purchased\<close> take their defaults.
\<close>

definition Gift :: "string \<Rightarrow> string \<Rightarrow> datetime \<Rightarrow> uuid \<Rightarrow> gift" where
  "Gift n u t fresh =
     \<lparr>name = n, image_url = u, id_str = str_uuid fresh, available = True,
      purchased = None, updated_at = t\<rparr>"

datatype gift_public = GiftPublic string string string

record gift_purchase_request =
  id_uuid :: uuid
  purchased_by :: string

definition optional_str :: "string option \<Rightarrow> pyval" where
  "optional_str v = (case v of None \<Rightarrow> PNone | Some s \<Rightarrow> PStr s)"

text \<open>
  The loop of \<^verbatim>\<open>register_gifts\<close>. Each turn draws one UUID and reads the clock once:
  \<open>uuid4 i\<close> and \<open>now i\<close> are what the \<open>i\<close>-th turn gets.
  \<^verbatim>\<open>
  rows = []
  for g in gifts:
      gift = Gift(name=g.name, image_url=g.image_url, updated_at=datetime.now(tz=UTC))
      rows.append([gift.id, gift.name, gift.image_url, gift.available, gift.purchased,
                   str(gift.updated_at)])
  \<close>
\<close>

fun gift_rows :: "(nat \<Rightarrow> uuid) \<Rightarrow> (nat \<Rightarrow> datetime) \<Rightarrow> nat \<Rightarrow> gift_request list \<Rightarrow> pyval list list" where
  "gift_rows uuid4 now i [] = []"
| "gift_rows uuid4 now i (g # gs) =
     (let gift = Gift (name g) (image_url g) (now i) (uuid4 i)
      in [PStr (id_str gift), PStr (name gift), PStr (image_url gift), PBool (available gift),
          optional_str (purchased gift), PStr (str_datetime (updated_at gift))])
     # gift_rows uuid4 now (Suc i) gs"

definition register_gifts :: "worksheet \<Rightarrow> (nat \<Rightarrow> uuid) \<Rightarrow> (nat \<Rightarrow> datetime) \<Rightarrow> gift_request list \<Rightarrow> worksheet \<times> string" where
  "register_gifts ws uuid4 now gifts =
     (let headers = [''id'', ''name'', ''image_url'', ''available'', ''purchased'', ''updated_at''];
          ws1 = (if row_count ws < 2 \<or> row_values ws 1 = []
                 then ws_update ws [map PStr headers] else ws);
          rows = gift_rows uuid4 now 0 gifts;
          ws2 = append_rows ws1 rows
      in (ws2, str_nat (length gifts) @ '' gifts registered successfully.''))"

definition update_gift_purchased :: "worksheet \<Rightarrow> datetime \<Rightarrow> gift_purchase_request \<Rightarrow> error + worksheet \<times> string" where
  "update_gift_purchased ws now purchase =
     (case ws_find ws (str_uuid (id_uuid purchase)) 1 of
        None \<Rightarrow> Inl (HTTPException 404 ''Gift not found.'' [])
      | Some row_index \<Rightarrow>
          (let ws1 = update_cell ws row_index 4 (PBool False);
               ws2 = update_cell ws1 row_index 5 (PStr (purchased_by purchase));
               ws3 = update_cell ws2 row_index 6 (PStr (str_datetime now))
           in Inr (ws3, ''Gift '' @ str_uuid (id_uuid purchase) @ '' marked as purchased by '' @
                        purchased_by purchase @ ''.'')))"


text \<open>\<^verbatim>\<open>GiftPublic(id=g['id'], name=g['name'], image_url=g['image_url'])\<close>\<close>

definition gift_public_of :: "string dict \<Rightarrow> error + gift_public" where
  "gift_public_of g =
     (case py_getitem g ''id'' of
        Inl e \<Rightarrow> Inl e
      | Inr i \<Rightarrow>
          (case py_getitem g ''name'' of
             Inl e \<Rightarrow> Inl e
           | Inr n \<Rightarrow>
               (case py_getitem g ''image_url'' of
                  Inl e \<Rightarrow> Inl e
                | Inr u \<Rightarrow> Inr (GiftPublic i n u))))"



definition get_gift_by_id :: "worksheet \<Rightarrow> string \<Rightarrow> error + gift_public" where
  "get_gift_by_id ws ident =
     (case ws_find ws ident 1 of
        None \<Rightarrow> Inl (HTTPException 404 ''Gift not found.'' [])
      | Some r \<Rightarrow>
          (let row = row_values ws r;
               headers = row_values ws 1
           in case row_to_dict headers row of
                Inl e \<Rightarrow> Inl e
              | Inr gift_dict \<Rightarrow> gift_public_of gift_dict))"

section \<open>Testimonials\<close>

record testimonial_request =
  full_name :: string
  message :: string

definition register_testimonial :: "worksheet \<Rightarrow> datetime \<Rightarrow> testimonial_request \<Rightarrow> worksheet \<times> string" where
  "register_testimonial ws now testimonial =
     (let headers = [''full_name'', ''message'', ''created_at''];
          ws1 = (if row_count ws < 2 \<or> row_values ws 1 = []
                 then ws_update ws [map PStr headers] else ws);
          row = [PStr (full_name testimonial), PStr (message testimonial), PStr (str_datetime now)];
          ws2 = append_row ws1 row
      in (ws2, ''Testimonial registered successfully.''))"


section \<open>RSVPs\<close>

datatype rsvp_status = CONFIRMED | DECLINED

fun rsvp_status_value :: "rsvp_status \<Rightarrow> string" where
  "rsvp_status_value CONFIRMED = ''confirmed''"
| "rsvp_status_value DECLINED = ''declined''"

datatype person_type = ADULT | CHILD

fun person_type_value :: "person_type \<Rightarrow> string" where
  "person_type_value ADULT = ''adult''"
| "person_type_value CHILD = ''child''"

record companion =
  full_name :: string
  person :: person_type

record rsvp_request =
  full_name :: string
  status :: rsvp_status
  phone :: int
  companions :: "companion list option"


subsection \<open>The companions blob\<close>

text \<open>
  \<^verbatim>\<open>json.dumps([c.model_dump() for c in rsvp_data.companions])\<close> with the defaults of
  \<^verbatim>\<open>json.dumps\<close>: items separated by a comma and a space, keys from values by a colon and a
  space, and inside a string the quote, the backslash and every character outside the
  printable ASCII range escaped.
\<close>

definition json_escape :: "char \<Rightarrow> string" where
  "json_escape c =
     (if c = CHR 0x22 then [CHR 0x5C, CHR 0x22]
      else if c = CHR 0x5C then [CHR 0x5C, CHR 0x5C]
      else if c = CHR 0x0A then [CHR 0x5C, CHR ''n'']
      else if c = CHR 0x0D then [CHR 0x5C, CHR ''r'']
      else if c = CHR 0x09 then [CHR 0x5C, CHR ''t'']
      else if c = CHR 0x08 then [CHR 0x5C, CHR ''b'']
      else if c = CHR 0x0C then [CHR 0x5C, CHR ''f'']
      else if (of_char c :: nat) < 32 \<or> 126 < (of_char c :: nat)
        then [CHR 0x5C, CHR ''u'', CHR ''0'', CHR ''0'',
              hex_char (of_char c div 16), hex_char (of_char c mod 16)]
      else [c])"

definition json_string :: "string \<Rightarrow> string" where
  "json_string s = CHR 0x22 # concat (map json_escape s) @ [CHR 0x22]"

definition dumps_companion :: "companion \<Rightarrow> string" where
  "dumps_companion c =
     [CHR ''{''] @ json_string ''full_name'' @ '': '' @ json_string (companion.full_name c) @ '', '' @
     json_string ''person'' @ '': '' @ json_string (person_type_value (person c)) @ [CHR ''}'']"

fun join_items :: "string list \<Rightarrow> string" where
  "join_items [] = []"
| "join_items [x] = x"
| "join_items (x # y # ys) = x @ '', '' @ join_items (y # ys)"

definition json_dumps :: "companion list \<Rightarrow> string" where
  "json_dumps cs = ''['' @ join_items (map dumps_companion cs) @ '']''"



















subsection \<open>The handlers\<close>

definition register_rsvp :: "worksheet \<Rightarrow> datetime \<Rightarrow> rsvp_request \<Rightarrow> worksheet \<times> string" where
  "register_rsvp ws now rsvp_data =
     (let headers = [''full_name'', ''status'', ''phone'', ''companions'', ''created_at''];
          ws1 = (if row_count ws < 2 \<or> row_values ws 1 = []
                 then ws_update ws [map PStr headers] else ws);
          companions_json =
            (case companions rsvp_data of
               None \<Rightarrow> PNone
             | Some cs \<Rightarrow> if cs = [] then PNone else PStr (json_dumps cs));
          row = [PStr (rsvp_request.full_name rsvp_data), PStr (rsvp_status_value (status rsvp_data)),
                 PInt (phone rsvp_data), companions_json, PStr (str_datetime now)];
          ws2 = append_row ws1 row
      in (ws2, ''RSVP registered successfully.''))"




section \<open>Notions of the specification and example sheets\<close>






text \<open>
  A gift registry: the worksheet has the header row that \<open>register_gifts\<close> writes, and no
  text occurs twice in the identifier column.
\<close>

definition gift_headers :: "string list" where
  "gift_headers = [''id'', ''name'', ''image_url'', ''available'', ''purchased'', ''updated_at'']"

definition gift_registry :: "worksheet \<Rightarrow> bool" where
  "gift_registry ws =
     (grid ws \<noteq> [] \<and> hd (grid ws) = gift_headers \<and> distinct (map (\<lambda>r. row_cell r 1) (grid ws)))"

text \<open>
  The end-to-end example of the specification: two gifts registered on a fresh worksheet,
  with the UUIDs and the clock readings fixed, and a purchase of the first of them.
\<close>

definition example_time :: datetime where
  "example_time =
     \<lparr>year = 2026, month = 11, day = 4, hour = 12, minute = 30, second = 5, microsecond = 250\<rparr>"

definition example_uuid4 :: "nat \<Rightarrow> uuid" where
  "example_uuid4 i = 0x123e4567e89b42d3a456426614174000 + of_nat i"

definition registry :: worksheet where
  "registry =
     fst (register_gifts new_worksheet example_uuid4 (\<lambda>i. example_time)
            [\<lparr>name = ''Blender'', image_url = ''u1''\<rparr>, \<lparr>name = ''Toaster'', image_url = ''u2''\<rparr>])"

definition example_purchase :: gift_purchase_request where
  "example_purchase = \<lparr>id_uuid = example_uuid4 0, purchased_by = ''Sam''\<rparr>"

text \<open>
  An RSVP worksheet: it is empty, or its first row is the header row that \<open>register_rsvp\<close>
  writes.
\<close>

definition rsvp_headers :: "string list" where
  "rsvp_headers = [''full_name'', ''status'', ''phone'', ''companions'', ''created_at'']"




definition example_rsvp :: "companion list option \<Rightarrow> rsvp_request" where
  "example_rsvp cs = \<lparr>full_name = ''Ann Lee'', status = CONFIRMED, phone = 5511987654321, companions = cs\<rparr>"

definition testimonial_headers :: "string list" where
  "testimonial_headers = [''full_name'', ''message'', ''created_at'']"


section \<open>The row codec decodes by position\<close>

lemma dict_comprehension_in_range:
  "\<forall>i\<in>set is. i < length headers \<and> i < length row \<Longrightarrow>
   dict_comprehension headers row is d = Inr (fold (\<lambda>i d. d(headers ! i \<mapsto> row ! i)) is d)"
  by (induction "is" arbitrary: d) (simp_all add: py_index_def)

lemma dict_comprehension_short_row:
  "\<forall>i\<in>set is. i < length headers \<and> i < length row \<Longrightarrow> j < length headers \<Longrightarrow> length row \<le> j \<Longrightarrow>
   dict_comprehension headers row (is @ j # js) d = Inl IndexError"
  by (induction "is" arbitrary: d) (simp_all add: py_index_def)

lemma fold_upt_dict:
  "n \<le> length headers \<Longrightarrow>
   dom (fold (\<lambda>i d. d(headers ! i \<mapsto> row ! i)) [0..<n] Map.empty) = set (take n headers) \<and>
   (\<forall>i<n. (\<forall>j<n. i < j \<longrightarrow> headers ! j \<noteq> headers ! i) \<longrightarrow>
      fold (\<lambda>i d. d(headers ! i \<mapsto> row ! i)) [0..<n] Map.empty (headers ! i) = Some (row ! i))"
proof (induction n)
  case 0
  then show ?case by simp
next
  case (Suc n)
  from Suc.prems have "n \<le> length headers" by simp
  from Suc.IH [OF this] have IH: "dom (fold (\<lambda>i d. d(headers ! i \<mapsto> row ! i)) [0..<n] Map.empty) = set (take n headers)"
    "\<And>i. i < n \<Longrightarrow> (\<forall>j<n. i < j \<longrightarrow> headers ! j \<noteq> headers ! i) \<Longrightarrow>
      fold (\<lambda>i d. d(headers ! i \<mapsto> row ! i)) [0..<n] Map.empty (headers ! i) = Some (row ! i)"
    by blast+
  from Suc.prems have n: "n < length headers" by simp
  have d: "dom (fold (\<lambda>i d. d(headers ! i \<mapsto> row ! i)) [0..<Suc n] Map.empty) = set (take (Suc n) headers)"
    using IH(1) n by (simp add: take_Suc_conv_app_nth)
  have v: "fold (\<lambda>i d. d(headers ! i \<mapsto> row ! i)) [0..<Suc n] Map.empty (headers ! i) = Some (row ! i)"
    if "i < Suc n" and nd: "\<forall>j<Suc n. i < j \<longrightarrow> headers ! j \<noteq> headers ! i" for i
  proof (cases "i = n")
    case True
    then show ?thesis by simp
  next
    case False
    with that have "i < n" by simp
    moreover from nd have "\<forall>j<n. i < j \<longrightarrow> headers ! j \<noteq> headers ! i" by simp
    moreover from nd \<open>i < n\<close> have "headers ! n \<noteq> headers ! i" by simp
    ultimately show ?thesis using IH(2) [of i] by simp
  qed
  show ?case using d v by blast
qed

text \<open>
  C8 (as amended). For every headers list and row with \<open>length row \<ge> length headers\<close>,
  \<open>row_to_dict\<close> returns a mapping whose keys are the headers and which sends
  \<open>headers ! i\<close> to \<open>row ! i\<close> for every \<open>i\<close> whose header name does not occur again at a
  later index (of equal header names the last one wins). When the row is shorter than the
  headers, the decode raises \<open>IndexError\<close>; there is no explicit malformed-row error.
\<close>

theorem row_to_dict_zip:
  "(length headers \<le> length row \<longrightarrow>
      (\<exists>m. row_to_dict headers row = Inr m \<and> dom m = set headers \<and>
           (\<forall>i<length headers.
              (\<forall>j<length headers. i < j \<longrightarrow> headers ! j \<noteq> headers ! i) \<longrightarrow>
              m (headers ! i) = Some (row ! i)))) \<and>
   (length row < length headers \<longrightarrow> row_to_dict headers row = Inl IndexError)"
proof (intro conjI impI)
  assume le: "length headers \<le> length row"
  then have "row_to_dict headers row =
      Inr (fold (\<lambda>i d. d(headers ! i \<mapsto> row ! i)) [0..<length headers] Map.empty)"
    unfolding row_to_dict_def by (intro dict_comprehension_in_range) simp
  then show "\<exists>m. row_to_dict headers row = Inr m \<and> dom m = set headers \<and>
           (\<forall>i<length headers.
              (\<forall>j<length headers. i < j \<longrightarrow> headers ! j \<noteq> headers ! i) \<longrightarrow>
              m (headers ! i) = Some (row ! i))"
    using fold_upt_dict [of "length headers" headers row] by simp
next
  assume lt: "length row < length headers"
  then have "[0..<length headers] = [0..<length row] @ length row # [Suc (length row)..<length headers]"
    by (metis le_add2 le_add_same_cancel2 less_imp_add_positive upt_add_eq_append upt_conv_Cons)
  then show "row_to_dict headers row = Inl IndexError"
    unfolding row_to_dict_def using lt by (simp add: dict_comprehension_short_row)
qed

text \<open>
  C8 as stated fails when a header name occurs twice: for headers \<open>[a, a]\<close> and row
  \<open>[1, 2]\<close> the result sends \<open>a\<close> to \<open>2\<close>, so \<open>headers ! 0\<close> is not sent to \<open>row ! 0\<close>.
\<close>

theorem row_to_dict_duplicate_headers:
  "\<not> (\<forall>headers row. length headers \<le> length row \<longrightarrow>
        (\<exists>m. row_to_dict headers row = Inr m \<and>
             (\<forall>i<length headers. m (headers ! i) = Some (row ! i))))"
proof
  assume a: "\<forall>headers row. length headers \<le> length row \<longrightarrow>
        (\<exists>m. row_to_dict headers row = Inr m \<and>
             (\<forall>i<length headers. m (headers ! i) = Some (row ! i)))"
  have r: "row_to_dict [''a'', ''a''] [''1'', ''2''] = Inr [''a'' \<mapsto> ''2'']"
    by (simp add: row_to_dict_def py_index_def upt_rec)
  from a [rule_format, of "[''a'', ''a'']" "[''1'', ''2'']"] r
  have "\<forall>i<2. [''a'' \<mapsto> ''2''] ([''a'', ''a''] ! i) = Some ([''1'', ''2''] ! i)" by simp
  then have "[''a'' \<mapsto> ''2''] ([''a'', ''a''] ! 0) = Some ([''1'', ''2''] ! 0)"
    by (elim allE [where x = 0]) simp
  then show False by simp
qed

theorem row_to_dict_zip_witness:
  "length [''id'', ''name''] \<le> length [''g1'', ''Toaster'', ''u2''] \<and>
   (\<exists>m. row_to_dict [''id'', ''name''] [''g1'', ''Toaster'', ''u2''] = Inr m \<and>
        m ''id'' = Some ''g1'' \<and> m ''name'' = Some ''Toaster'') \<and>
   length [''g1''] < length [''id'', ''name''] \<and>
   row_to_dict [''id'', ''name''] [''g1''] = Inl IndexError"
proof -
  from row_to_dict_zip [of "[''id'', ''name'']" "[''g1'', ''Toaster'', ''u2'']"]
  obtain m where m: "row_to_dict [''id'', ''name''] [''g1'', ''Toaster'', ''u2''] = Inr m"
    and p: "\<forall>i<length [''id'', ''name''].
              (\<forall>j<length [''id'', ''name'']. i < j \<longrightarrow> [''id'', ''name''] ! j \<noteq> [''id'', ''name''] ! i) \<longrightarrow>
              m ([''id'', ''name''] ! i) = Some ([''g1'', ''Toaster'', ''u2''] ! i)"
    by auto
  from p [rule_format, of 0] have "m ''id'' = Some ''g1''" by (simp add: less_Suc_eq)
  moreover from p [rule_format, of 1] have "m ''name'' = Some ''Toaster''" by (simp add: less_Suc_eq)
  moreover from row_to_dict_zip [of "[''id'', ''name'']" "[''g1'']"]
  have "row_to_dict [''id'', ''name''] [''g1''] = Inl IndexError" by simp
  ultimately show ?thesis using m by simp
qed

section \<open>Pages of the available gifts\<close>














section \<open>Pages that are not positive\<close>



section \<open>Cells, rows and lookups of the sheet\<close>

lemma row_cell_Nil [simp]: "row_cell [] c = []"
  by (auto simp: row_cell_def)

lemma row_cell_set_cell:
  assumes "1 \<le> c"
  shows "row_cell (set_cell x c v) c' = (if c' = c then v else row_cell x c')"
proof -
  define y where "y = x @ replicate (c - length x) []"
  have len: "length y = max (length x) c" by (simp add: y_def max_def)
  have y: "row_cell y k = row_cell x k" for k
    by (auto simp: row_cell_def y_def nth_append)
  have "row_cell (y[c - 1 := v]) c' = (if c' = c then v else row_cell y c')"
    using assms len by (auto simp: row_cell_def nth_list_update)
  then show ?thesis by (simp add: set_cell_def y y_def [symmetric])
qed

lemma length_set_cell: "length (set_cell x c v) = max (length x) c"
  by (simp add: set_cell_def max_def)

lemma cell_value_update_cell:
  assumes "1 \<le> r" and "1 \<le> c"
  shows "cell_value (update_cell ws r c v) r' c' =
           (if r' = r \<and> c' = c then cell_text v else cell_value ws r' c')"
proof -
  define rs where "rs = grid ws @ replicate (r - length (grid ws)) []"
  have len: "length rs = max (length (grid ws)) r" by (simp add: rs_def max_def)
  have old: "row_cell (rs ! (k - 1)) c' = cell_value ws k c'" if "1 \<le> k" "k \<le> length rs" for k
    using that by (auto simp: rs_def cell_value_def nth_append)
  have g: "grid (update_cell ws r c v) = rs[r - 1 := set_cell (rs ! (r - 1)) c (cell_text v)]"
    by (simp add: update_cell_def rs_def Let_def)
  show ?thesis
  proof (cases "1 \<le> r' \<and> r' \<le> length rs")
    case True
    then have in_range: "r' - 1 < length rs" by arith
    have "cell_value (update_cell ws r c v) r' c' =
        row_cell ((rs[r - 1 := set_cell (rs ! (r - 1)) c (cell_text v)]) ! (r' - 1)) c'"
      using True by (simp add: cell_value_def g)
    also have "\<dots> = (if r' = r then row_cell (set_cell (rs ! (r - 1)) c (cell_text v)) c'
                       else row_cell (rs ! (r' - 1)) c')"
    proof (cases "r' = r")
      case True
      then show ?thesis using in_range by simp
    next
      case False
      with True assms have "r - 1 \<noteq> r' - 1" by arith
      then show ?thesis using False by simp
    qed
    also have "\<dots> = (if r' = r \<and> c' = c then cell_text v else cell_value ws r' c')"
      using old [of r'] True assms by (auto simp: row_cell_set_cell)
    finally show ?thesis .
  next
    case False
    then have "cell_value ws r' c' = []" using len by (auto simp: cell_value_def)
    moreover have "r' \<noteq> r" using False assms len by auto
    ultimately show ?thesis using False by (auto simp: cell_value_def [of "update_cell ws r c v"] g)
  qed
qed

lemma find_from_None:
  "find_from q c k xs = None \<longleftrightarrow> (\<forall>x\<in>set xs. row_cell x c \<noteq> q)"
  by (induction xs arbitrary: k) auto

lemma find_from_Some:
  "find_from q c k xs = Some r \<Longrightarrow>
     k \<le> r \<and> r < k + length xs \<and> row_cell (xs ! (r - k)) c = q \<and>
     (\<forall>j<r - k. row_cell (xs ! j) c \<noteq> q)"
proof (induction xs arbitrary: k)
  case Nil
  then show ?case by simp
next
  case (Cons x xs)
  show ?case
  proof (cases "row_cell x c = q")
    case True
    with Cons.prems show ?thesis by simp
  next
    case False
    with Cons.prems have f: "find_from q c (Suc k) xs = Some r" by simp
    from Cons.IH [OF f] have ih: "Suc k \<le> r" "r < Suc k + length xs"
      "row_cell (xs ! (r - Suc k)) c = q" "\<forall>j<r - Suc k. row_cell (xs ! j) c \<noteq> q" by simp_all
    have "row_cell ((x # xs) ! j) c \<noteq> q" if "j < r - k" for j
      using that False ih(4) by (cases j) auto
    moreover have "(x # xs) ! (r - k) = xs ! (r - Suc k)" using ih(1) by (simp add: Suc_diff_le nth_Cons')
    ultimately show ?thesis using ih by auto
  qed
qed

lemma ws_find_None:
  "ws_find ws q c = None \<longleftrightarrow> (\<forall>r. 1 \<le> r \<and> r \<le> length (grid ws) \<longrightarrow> cell_value ws r c \<noteq> q)"
proof -
  have "(\<forall>x\<in>set (grid ws). row_cell x c \<noteq> q) \<longleftrightarrow>
        (\<forall>r. 1 \<le> r \<and> r \<le> length (grid ws) \<longrightarrow> row_cell (grid ws ! (r - 1)) c \<noteq> q)"
  proof
    assume a: "\<forall>x\<in>set (grid ws). row_cell x c \<noteq> q"
    show "\<forall>r. 1 \<le> r \<and> r \<le> length (grid ws) \<longrightarrow> row_cell (grid ws ! (r - 1)) c \<noteq> q"
    proof (intro allI impI)
      fix r assume "1 \<le> r \<and> r \<le> length (grid ws)"
      then have "grid ws ! (r - 1) \<in> set (grid ws)" by (intro nth_mem) arith
      with a show "row_cell (grid ws ! (r - 1)) c \<noteq> q" by blast
    qed
  next
    assume a: "\<forall>r. 1 \<le> r \<and> r \<le> length (grid ws) \<longrightarrow> row_cell (grid ws ! (r - 1)) c \<noteq> q"
    show "\<forall>x\<in>set (grid ws). row_cell x c \<noteq> q"
    proof
      fix x assume "x \<in> set (grid ws)"
      then obtain i where "i < length (grid ws)" "grid ws ! i = x" by (auto simp: in_set_conv_nth)
      with a [rule_format, of "Suc i"] show "row_cell x c \<noteq> q" by simp
    qed
  qed
  then show ?thesis by (simp add: ws_find_def find_from_None cell_value_def)
qed

lemma ws_find_Some:
  assumes "ws_find ws q c = Some r"
  shows "1 \<le> r \<and> r \<le> length (grid ws) \<and> cell_value ws r c = q \<and>
         (\<forall>r'. 1 \<le> r' \<and> r' < r \<longrightarrow> cell_value ws r' c \<noteq> q)"
proof -
  from assms have f: "find_from q c 1 (grid ws) = Some r" by (simp add: ws_find_def)
  from find_from_Some [OF f] have a: "1 \<le> r" "r < 1 + length (grid ws)"
    "row_cell (grid ws ! (r - 1)) c = q" "\<forall>j<r - 1. row_cell (grid ws ! j) c \<noteq> q" by simp_all
  have "cell_value ws r' c \<noteq> q" if "1 \<le> r'" "r' < r" for r'
  proof -
    from that have "r' - 1 < r - 1" by arith
    with a(4) have "row_cell (grid ws ! (r' - 1)) c \<noteq> q" by blast
    moreover from that a(2) have "r' \<le> length (grid ws)" by arith
    ultimately show ?thesis using that by (simp add: cell_value_def)
  qed
  with a show ?thesis by (auto simp: cell_value_def)
qed

lemma length_uuid_hex: "length (uuid_hex u) = 32"
  by (simp add: uuid_hex_def)

lemma length_str_uuid: "length (str_uuid u) = 36"
  by (simp add: str_uuid_def Let_def length_uuid_hex)

lemma str_datetime_not_empty: "str_datetime t \<noteq> []"
  by (simp add: str_datetime_def)

lemma grid_update_cell:
  "1 \<le> r \<Longrightarrow> r \<le> length (grid ws) \<Longrightarrow>
   grid (update_cell ws r c v) = (grid ws)[r - 1 := set_cell (grid ws ! (r - 1)) c (cell_text v)]"
  by (simp add: update_cell_def Let_def)

lemma strip_trailing_decomp:
  "\<exists>s. x = strip_trailing x @ s \<and> (\<forall>e\<in>set s. e = [])"
proof -
  have "rev (rev x) = rev (takeWhile (\<lambda>c. c = []) (rev x) @ dropWhile (\<lambda>c. c = []) (rev x))"
    by (simp only: takeWhile_dropWhile_id)
  then have "x = strip_trailing x @ rev (takeWhile (\<lambda>c. c = []) (rev x))"
    by (simp only: rev_rev_ident rev_append strip_trailing_def)
  moreover have "\<forall>e\<in>set (rev (takeWhile (\<lambda>c. c = []) (rev x))). e = []"
    by (auto dest: set_takeWhileD)
  ultimately show ?thesis by blast
qed

lemma row_cell_append_empty:
  assumes "\<forall>e\<in>set s. e = []"
  shows "row_cell (p @ s) c = row_cell p c"
proof (cases "1 \<le> c \<and> c \<le> length p")
  case True
  then have "c - 1 < length p" by arith
  with True show ?thesis by (simp add: row_cell_def nth_append)
next
  case False
  then have p: "row_cell p c = []" by (auto simp: row_cell_def)
  show ?thesis
  proof (cases "1 \<le> c \<and> c \<le> length (p @ s)")
    case True
    with False have "\<not> c - 1 < length p" "c - 1 - length p < length s" by (simp; arith)+
    then have "(p @ s) ! (c - 1) = s ! (c - 1 - length p)" "s ! (c - 1 - length p) \<in> set s"
      by (simp_all add: nth_append)
    with assms have "(p @ s) ! (c - 1) = []" by simp
    with True p show ?thesis by (simp add: row_cell_def)
  next
    case False
    then have "row_cell (p @ s) c = []" by (auto simp: row_cell_def)
    with p show ?thesis by simp
  qed
qed

lemma row_cell_strip_trailing: "row_cell (strip_trailing x) c = row_cell x c"
proof -
  from strip_trailing_decomp [of x] obtain s where
    x: "x = strip_trailing x @ s" and e: "\<forall>e\<in>set s. e = []" by blast
  from row_cell_append_empty [OF e, of "strip_trailing x" c] x show ?thesis by simp
qed

lemma strip_trailing_keeps:
  assumes "row_cell x c \<noteq> []"
  shows "c \<le> length (strip_trailing x)"
proof -
  from assms have "row_cell (strip_trailing x) c \<noteq> []" by (simp add: row_cell_strip_trailing)
  then show ?thesis by (auto simp: row_cell_def split: if_splits)
qed

section \<open>Marking a gift as purchased\<close>

text \<open>
  C3. \<open>update_gift_purchased\<close> raises the not-found error exactly when no row has an
  identifier-column cell equal to the text of the given identifier. When there is a match,
  it takes the first matching row, sets its columns 4, 5 and 6 to \<open>FALSE\<close>, the buyer's name
  and the current time, and leaves every other cell of the worksheet as it was.
\<close>

theorem update_gift_purchased_first_match:
  "(update_gift_purchased ws now purchase = Inl (HTTPException 404 ''Gift not found.'' []) \<longleftrightarrow>
      \<not> (\<exists>r. 1 \<le> r \<and> r \<le> length (grid ws) \<and> cell_value ws r 1 = str_uuid (id_uuid purchase))) \<and>
   ((\<exists>r. 1 \<le> r \<and> r \<le> length (grid ws) \<and> cell_value ws r 1 = str_uuid (id_uuid purchase)) \<longrightarrow>
      (\<exists>r ws' msg.
          1 \<le> r \<and> r \<le> length (grid ws) \<and> cell_value ws r 1 = str_uuid (id_uuid purchase) \<and>
          (\<forall>r'. 1 \<le> r' \<and> r' < r \<longrightarrow> cell_value ws r' 1 \<noteq> str_uuid (id_uuid purchase)) \<and>
          update_gift_purchased ws now purchase = Inr (ws', msg) \<and>
          cell_value ws' r 4 = ''FALSE'' \<and>
          cell_value ws' r 5 = purchased_by purchase \<and>
          cell_value ws' r 6 = str_datetime now \<and>
          (\<forall>r' c. \<not> (r' = r \<and> (c = 4 \<or> c = 5 \<or> c = 6)) \<longrightarrow>
             cell_value ws' r' c = cell_value ws r' c)))"
proof (cases "ws_find ws (str_uuid (id_uuid purchase)) 1")
  case None
  then have "update_gift_purchased ws now purchase = Inl (HTTPException 404 ''Gift not found.'' [])"
    by (simp add: update_gift_purchased_def)
  moreover from None
  have "\<not> (\<exists>r. 1 \<le> r \<and> r \<le> length (grid ws) \<and> cell_value ws r 1 = str_uuid (id_uuid purchase))"
    by (simp add: ws_find_None)
  ultimately show ?thesis by simp
next
  case (Some r)
  define ws' where "ws' =
    update_cell (update_cell (update_cell ws r 4 (PBool False)) r 5 (PStr (purchased_by purchase)))
      r 6 (PStr (str_datetime now))"
  from ws_find_Some [OF Some] have r: "1 \<le> r" "r \<le> length (grid ws)"
    "cell_value ws r 1 = str_uuid (id_uuid purchase)"
    "\<forall>r'. 1 \<le> r' \<and> r' < r \<longrightarrow> cell_value ws r' 1 \<noteq> str_uuid (id_uuid purchase)"
    by simp_all
  have u: "update_gift_purchased ws now purchase =
      Inr (ws', ''Gift '' @ str_uuid (id_uuid purchase) @ '' marked as purchased by '' @
                 purchased_by purchase @ ''.'')"
    using Some by (simp add: update_gift_purchased_def ws'_def Let_def)
  have cv: "cell_value ws' r' c =
      (if r' = r \<and> c = 6 then str_datetime now
       else if r' = r \<and> c = 5 then purchased_by purchase
       else if r' = r \<and> c = 4 then ''FALSE''
       else cell_value ws r' c)" for r' c
    using r(1) by (simp add: ws'_def cell_value_update_cell)
  have "cell_value ws' r 4 = ''FALSE''" "cell_value ws' r 5 = purchased_by purchase"
    "cell_value ws' r 6 = str_datetime now"
    "\<forall>r' c. \<not> (r' = r \<and> (c = 4 \<or> c = 5 \<or> c = 6)) \<longrightarrow> cell_value ws' r' c = cell_value ws r' c"
    by (simp_all add: cv)
  with r u show ?thesis by auto
qed

lemma registry_grid:
  "grid registry =
     [[''id'', ''name'', ''image_url'', ''available'', ''purchased'', ''updated_at''],
      [''123e4567-e89b-42d3-a456-426614174000'', ''Blender'', ''u1'', ''TRUE'', [],
       ''2026-11-04 12:30:05.000250+00:00''],
      [''123e4567-e89b-42d3-a456-426614174001'', ''Toaster'', ''u2'', ''TRUE'', [],
       ''2026-11-04 12:30:05.000250+00:00'']]"
  by code_simp

lemma example_purchase_id:
  "str_uuid (id_uuid example_purchase) = ''123e4567-e89b-42d3-a456-426614174000''"
  by code_simp

theorem update_gift_purchased_first_match_witness:
  "(\<exists>r. 1 \<le> r \<and> r \<le> length (grid registry) \<and>
        cell_value registry r 1 = str_uuid (id_uuid example_purchase)) \<and>
   (\<exists>r ws' msg.
       update_gift_purchased registry example_time example_purchase = Inr (ws', msg) \<and>
       cell_value ws' r 4 = ''FALSE'' \<and>
       cell_value ws' r 5 = purchased_by example_purchase \<and>
       cell_value ws' r 6 = str_datetime example_time) \<and>
   update_gift_purchased registry example_time example_purchase
     \<noteq> Inl (HTTPException 404 ''Gift not found.'' [])"
proof -
  have "cell_value registry 2 1 = str_uuid (id_uuid example_purchase)"
    by (simp add: example_purchase_id cell_value_def registry_grid row_cell_def)
  then have h: "\<exists>r. 1 \<le> r \<and> r \<le> length (grid registry) \<and>
        cell_value registry r 1 = str_uuid (id_uuid example_purchase)"
    by (intro exI [of _ 2]) (simp add: registry_grid)
  from update_gift_purchased_first_match [of registry example_time example_purchase] h
  show ?thesis by blast
qed

section \<open>The companions blob reads back\<close>




















section \<open>Registering an RSVP and listing it\<close>














section \<open>The header row\<close>

lemma strip_trailing_append_empty:
  assumes "\<forall>e\<in>set s. e = []" and "hs = [] \<or> last hs \<noteq> []"
  shows "strip_trailing (hs @ s) = hs"
proof -
  have "dropWhile (\<lambda>c. c = []) (rev s @ rev hs) = dropWhile (\<lambda>c. c = []) (rev hs)"
    using assms(1) by (intro dropWhile_append2) simp
  moreover have "dropWhile (\<lambda>c. c = []) (rev hs) = rev hs"
  proof (cases hs rule: rev_cases)
    case Nil
    then show ?thesis by simp
  next
    case (snoc ys y)
    with assms(2) show ?thesis by simp
  qed
  ultimately show ?thesis by (simp add: strip_trailing_def)
qed

lemma header_step:
  assumes hs: "hs \<noteq> []" "last hs \<noteq> []"
    and first: "row_values ws 1 = [] \<or> row_values ws 1 = hs"
  shows "row_values (if row_count ws < 2 \<or> row_values ws 1 = []
                     then ws_update ws [map PStr hs] else ws) 1 = hs \<and>
         grid (if row_count ws < 2 \<or> row_values ws 1 = []
               then ws_update ws [map PStr hs] else ws) \<noteq> []"
proof (cases "grid ws")
  case Nil
  then have "row_values ws 1 = []" by (simp add: row_values_def)
  moreover have "strip_trailing hs = hs"
    using strip_trailing_append_empty [of "[]" hs] hs by simp
  ultimately show ?thesis
    using Nil by (simp add: ws_update_def row_values_def comp_def)
next
  case (Cons r1 data)
  from strip_trailing_decomp [of r1] obtain s where
    r1: "r1 = strip_trailing r1 @ s" and s: "\<forall>e\<in>set s. e = []" by blast
  have rv: "row_values ws 1 = strip_trailing r1" using Cons by (simp add: row_values_def)
  have d: "\<forall>e\<in>set (drop n r1). e = []" if "strip_trailing r1 = [] \<or> n = length (strip_trailing r1)" for n
  proof -
    from that r1 have "drop n r1 = drop n s \<or> drop n r1 = s"
      by (metis append_Nil drop_append self_append_conv2 append_eq_conv_conj)
    with s show ?thesis by (metis in_set_dropD)
  qed
  have new: "strip_trailing (hs @ drop (length hs) r1) = hs"
  proof -
    from first rv have "strip_trailing r1 = [] \<or> length hs = length (strip_trailing r1)" by auto
    from d [OF this] show ?thesis using hs by (intro strip_trailing_append_empty) simp_all
  qed
  show ?thesis
  proof (cases "row_count ws < 2 \<or> row_values ws 1 = []")
    case True
    then show ?thesis using Cons new by (simp add: ws_update_def row_values_def comp_def)
  next
    case False
    with first rv Cons show ?thesis by auto
  qed
qed

lemma row_values_append_rows:
  "grid ws \<noteq> [] \<Longrightarrow> row_values (append_rows ws vs) 1 = row_values ws 1"
  by (cases "grid ws") (simp_all add: append_rows_def row_values_def)

lemma header_then_append:
  assumes "hs \<noteq> []" "last hs \<noteq> []" "row_values ws 1 = [] \<or> row_values ws 1 = hs"
  shows "row_values (append_rows (if row_count ws < 2 \<or> row_values ws 1 = []
                                  then ws_update ws [map PStr hs] else ws) vs) 1 = hs"
proof -
  from header_step [OF assms] have
    a: "row_values (if row_count ws < 2 \<or> row_values ws 1 = []
                    then ws_update ws [map PStr hs] else ws) 1 = hs"
    and b: "grid (if row_count ws < 2 \<or> row_values ws 1 = []
                  then ws_update ws [map PStr hs] else ws) \<noteq> []"
    by blast+
  from row_values_append_rows [OF b, of vs] a show ?thesis by (rule trans)
qed

text \<open>
  C6. Each register operation (RSVP, gifts, testimonial) keeps the header row: when it finds
  the first row of its worksheet missing or empty it writes the header row, and the data rows
  go below it; when the first row already is the header row it stays so. Hence, from a
  worksheet whose first row is missing, empty or the header row, the first row after the
  operation is that resource's header list.
\<close>

theorem register_keeps_header_row:
  "(row_values ws 1 = [] \<or> row_values ws 1 = rsvp_headers \<longrightarrow>
      row_values (fst (register_rsvp ws now x)) 1 = rsvp_headers) \<and>
   (row_values ws 1 = [] \<or> row_values ws 1 = gift_headers \<longrightarrow>
      row_values (fst (register_gifts ws uuid4 clock gifts)) 1 = gift_headers) \<and>
   (row_values ws 1 = [] \<or> row_values ws 1 = testimonial_headers \<longrightarrow>
      row_values (fst (register_testimonial ws now t)) 1 = testimonial_headers) \<and>
   (grid ws = [] \<longrightarrow>
      hd (grid (fst (register_rsvp ws now x))) = rsvp_headers \<and>
      length (grid (fst (register_rsvp ws now x))) = 2 \<and>
      hd (grid (fst (register_gifts ws uuid4 clock gifts))) = gift_headers \<and>
      length (grid (fst (register_gifts ws uuid4 clock gifts))) = 1 + length gifts \<and>
      hd (grid (fst (register_testimonial ws now t))) = testimonial_headers \<and>
      length (grid (fst (register_testimonial ws now t))) = 2)"
proof -
  have r: "row_values (fst (register_rsvp ws now x)) 1 = rsvp_headers"
    if "row_values ws 1 = [] \<or> row_values ws 1 = rsvp_headers"
  proof -
    have "fst (register_rsvp ws now x) =
        append_rows (if row_count ws < 2 \<or> row_values ws 1 = []
                     then ws_update ws [map PStr rsvp_headers] else ws)
          [[PStr (rsvp_request.full_name x), PStr (rsvp_status_value (status x)), PInt (phone x),
            (case companions x of
               None \<Rightarrow> PNone
             | Some cs \<Rightarrow> if cs = [] then PNone else PStr (json_dumps cs)),
            PStr (str_datetime now)]]"
      unfolding register_rsvp_def Let_def append_row_def rsvp_headers_def fst_conv by (rule refl)
    moreover have "rsvp_headers \<noteq> []" "last rsvp_headers \<noteq> []" by (simp_all add: rsvp_headers_def)
    ultimately show ?thesis using header_then_append [OF _ _ that] by simp
  qed
  have g: "row_values (fst (register_gifts ws uuid4 clock gifts)) 1 = gift_headers"
    if "row_values ws 1 = [] \<or> row_values ws 1 = gift_headers"
  proof -
    have "fst (register_gifts ws uuid4 clock gifts) =
        append_rows (if row_count ws < 2 \<or> row_values ws 1 = []
                     then ws_update ws [map PStr gift_headers] else ws)
          (gift_rows uuid4 clock 0 gifts)"
      unfolding register_gifts_def Let_def gift_headers_def fst_conv by (rule refl)
    moreover have "gift_headers \<noteq> []" "last gift_headers \<noteq> []" by (simp_all add: gift_headers_def)
    ultimately show ?thesis using header_then_append [OF _ _ that] by simp
  qed
  have t: "row_values (fst (register_testimonial ws now t)) 1 = testimonial_headers"
    if "row_values ws 1 = [] \<or> row_values ws 1 = testimonial_headers"
  proof -
    have "fst (register_testimonial ws now t) =
        append_rows (if row_count ws < 2 \<or> row_values ws 1 = []
                     then ws_update ws [map PStr testimonial_headers] else ws)
          [[PStr (testimonial_request.full_name t), PStr (message t), PStr (str_datetime now)]]"
      unfolding register_testimonial_def Let_def append_row_def testimonial_headers_def fst_conv
      by (rule refl)
    moreover have "testimonial_headers \<noteq> []" "last testimonial_headers \<noteq> []"
      by (simp_all add: testimonial_headers_def)
    ultimately show ?thesis using header_then_append [OF _ _ that] by simp
  qed
  have e: "hd (grid (fst (register_rsvp ws now x))) = rsvp_headers \<and>
      length (grid (fst (register_rsvp ws now x))) = 2 \<and>
      hd (grid (fst (register_gifts ws uuid4 clock gifts))) = gift_headers \<and>
      length (grid (fst (register_gifts ws uuid4 clock gifts))) = 1 + length gifts \<and>
      hd (grid (fst (register_testimonial ws now t))) = testimonial_headers \<and>
      length (grid (fst (register_testimonial ws now t))) = 2"
    if "grid ws = []"
  proof -
    from that have rv: "row_values ws 1 = []" by (simp add: row_values_def)
    have l: "length (gift_rows uuid4 clock i gifts) = length gifts" for i
      by (induction gifts arbitrary: i) simp_all
    show ?thesis
      using that rv l
      by (simp add: register_rsvp_def register_gifts_def register_testimonial_def Let_def
          append_row_def append_rows_def ws_update_def comp_def rsvp_headers_def gift_headers_def
          testimonial_headers_def)
  qed
  show ?thesis using r g t e by blast
qed

theorem register_keeps_header_row_witness:
  "row_values new_worksheet 1 = [] \<and> grid new_worksheet = [] \<and>
   row_values (fst (register_rsvp new_worksheet example_time (example_rsvp None))) 1 = rsvp_headers \<and>
   row_values (fst (register_testimonial new_worksheet example_time
                      \<lparr>testimonial_request.full_name = ''Ann Lee'', message = ''Joy''\<rparr>)) 1 = testimonial_headers \<and>
   hd (grid (fst (register_gifts new_worksheet example_uuid4 (\<lambda>i. example_time) []))) = gift_headers \<and>
   row_values registry 1 = gift_headers \<and>
   row_values (fst (register_gifts registry example_uuid4 (\<lambda>i. example_time) [])) 1 = gift_headers"
proof -
  have n: "row_values new_worksheet 1 = []" "grid new_worksheet = []"
    by (simp_all add: row_values_def new_worksheet_def)
  have r: "row_values registry 1 = gift_headers"
    by (simp add: row_values_def registry_grid strip_trailing_def gift_headers_def)
  from register_keeps_header_row
         [of new_worksheet example_time "example_rsvp None" example_uuid4 "\<lambda>i. example_time" "[]"
             "\<lparr>testimonial_request.full_name = ''Ann Lee'', message = ''Joy''\<rparr>"]
       register_keeps_header_row
         [of registry example_time "example_rsvp None" example_uuid4 "\<lambda>i. example_time" "[]"
             "\<lparr>testimonial_request.full_name = ''Ann Lee'', message = ''Joy''\<rparr>"]
       n r
  show ?thesis by simp
qed

end
